theory Spec2Isabelle
  imports Main
begin

section \<open>The signals of \<open>MapSignals\<close>\<close>

text \<open>
  \<open>MapSignals<Key, Value>\<close> declares six payload structs. The C++ structs hold
  references to the key and the value; the model holds the values those references
  read when the signal is built.
\<close>

datatype ('k, 'v) signal =
    Inserted 'k 'v
  | Updated 'k 'v 'v
  | Erased 'k 'v
  | Cleared
  | Rehashed nat nat
  | Reserved nat

section \<open>The standard container \<open>std::unordered_map\<close>\<close>

text \<open>
  The wrapped \<open>std::unordered_map<Key, Value>\<close> is modelled by the list of its
  elements in iteration order. An iterator is a position in that order and \<open>end()\<close>
  is the position one past the last element. The container keeps its keys unique
  (\<open>um_invar\<close>). The standard leaves the place of a new element in the iteration
  order open; the model puts it first. Erasing keeps the order of the other elements.
\<close>

type_synonym ('k, 'v) unordered_map = "('k \<times> 'v) list"

type_synonym iterator = nat

definition um_invar :: "('k, 'v) unordered_map \<Rightarrow> bool" where
  "um_invar m = distinct (map fst m)"

definition um_size :: "('k, 'v) unordered_map \<Rightarrow> nat" where
  "um_size m = length m"

definition um_empty :: "('k, 'v) unordered_map \<Rightarrow> bool" where
  "um_empty m = (m = [])"

definition um_begin :: "('k, 'v) unordered_map \<Rightarrow> iterator" where
  "um_begin m = 0"

definition um_end :: "('k, 'v) unordered_map \<Rightarrow> iterator" where
  "um_end m = length m"

fun um_find :: "('k, 'v) unordered_map \<Rightarrow> 'k \<Rightarrow> iterator" where
  "um_find [] k = 0"
| "um_find (e # m) k = (if fst e = k then 0 else Suc (um_find m k))"

text \<open>\<open>std::unordered_map::at\<close> throws \<open>std::out_of_range\<close> for a missing key.\<close>

datatype error = OutOfRange

definition um_at :: "('k, 'v) unordered_map \<Rightarrow> 'k \<Rightarrow> error + 'v" where
  "um_at m k =
     (let it = um_find m k in
      if it = um_end m then Inl OutOfRange else Inr (snd (m ! it)))"

definition um_emplace ::
  "('k, 'v) unordered_map \<Rightarrow> 'k \<Rightarrow> 'v \<Rightarrow> ('k, 'v) unordered_map \<times> iterator \<times> bool" where
  "um_emplace m k v =
     (let it = um_find m k in
      if it = um_end m then ((k, v) # m, 0, True) else (m, it, False))"

definition um_try_emplace ::
  "('k, 'v) unordered_map \<Rightarrow> 'k \<Rightarrow> ('a \<Rightarrow> 'v) \<Rightarrow> 'a \<Rightarrow>
   ('k, 'v) unordered_map \<times> iterator \<times> bool" where
  "um_try_emplace m k construct args =
     (let it = um_find m k in
      if it = um_end m then ((k, construct args) # m, 0, True) else (m, it, False))"

definition um_insert_or_assign ::
  "('k, 'v) unordered_map \<Rightarrow> 'k \<Rightarrow> 'v \<Rightarrow> ('k, 'v) unordered_map \<times> iterator \<times> bool" where
  "um_insert_or_assign m k v =
     (let it = um_find m k in
      if it = um_end m then ((k, v) # m, 0, True)
      else (m[it := (fst (m ! it), v)], it, False))"

text \<open>
  \<open>operator[]\<close> value-initialises the mapped value of a missing key; the value
  \<open>Value()\<close> is the parameter \<open>dflt\<close>. The result is the new container and the
  position of the element the returned reference points into.
\<close>

definition um_subscript ::
  "'v \<Rightarrow> ('k, 'v) unordered_map \<Rightarrow> 'k \<Rightarrow> ('k, 'v) unordered_map \<times> iterator" where
  "um_subscript dflt m k =
     (let it = um_find m k in
      if it = um_end m then ((k, dflt) # m, 0) else (m, it))"

definition um_erase_key ::
  "('k, 'v) unordered_map \<Rightarrow> 'k \<Rightarrow> ('k, 'v) unordered_map \<times> nat" where
  "um_erase_key m k =
     (let it = um_find m k in
      if it = um_end m then (m, 0) else (take it m @ drop (Suc it) m, 1))"

text \<open>
  \<open>erase(pos)\<close> requires a dereferenceable iterator; for any other position the
  behaviour is undefined, which the model returns as \<open>None\<close>. The iterator
  returned is the one following the erased element: the same position in the new order.
\<close>

definition um_erase_pos ::
  "('k, 'v) unordered_map \<Rightarrow> iterator \<Rightarrow> (('k, 'v) unordered_map \<times> iterator) option" where
  "um_erase_pos m pos =
     (if pos < length m then Some (take pos m @ drop (Suc pos) m, pos) else None)"

definition um_clear :: "('k, 'v) unordered_map \<Rightarrow> ('k, 'v) unordered_map" where
  "um_clear m = []"

text \<open>\<open>reserve\<close> changes the bucket count only, which the model does not hold.\<close>

definition um_reserve :: "('k, 'v) unordered_map \<Rightarrow> nat \<Rightarrow> ('k, 'v) unordered_map" where
  "um_reserve m n = m"

section \<open>The signal emitter\<close>

text \<open>
  Modelled from the spec: the class \<open>SignalEmitter\<close> comes from
  \<open>sbpt_generated_includes.hpp\<close>, which the sources do not hold. The spec says
  of it that \<open>emit(event)\<close> synchronously delivers the event to the subscribed
  callbacks and returns after they have run. A callback is C++ code that may hold a
  reference to the map and read it while it runs; what it can read is the content
  the container has at the moment \<open>emit\<close> is called. The model keeps the
  emissions in order, each with the signal and with that content. Callbacks that
  change the map or throw are outside the model.
\<close>

record ('k, 'v) SignalEmitter =
  emitted :: "(('k, 'v) signal \<times> ('k, 'v) unordered_map) list"

definition emit ::
  "('k, 'v) SignalEmitter \<Rightarrow> ('k, 'v) unordered_map \<Rightarrow> ('k, 'v) signal \<Rightarrow>
   ('k, 'v) SignalEmitter" where
  "emit e visible sig = e\<lparr>emitted := emitted e @ [(sig, visible)]\<rparr>"

section \<open>\<open>ReactiveUnorderedMap\<close>\<close>

text \<open>
  The class has the public member \<open>signal_emitter\<close> and the private member
  \<open>map_\<close>, which is the field \<open>map_m\<close> here. A member function that changes the
  object returns the new object, together with its C++ result.
\<close>

record ('k, 'v) ReactiveUnorderedMap =
  signal_emitter :: "('k, 'v) SignalEmitter"
  map_m :: "('k, 'v) unordered_map"

text \<open>The defaulted constructor: an empty container and an emitter that has emitted nothing.\<close>

definition new_map :: "('k, 'v) ReactiveUnorderedMap" where
  "new_map = \<lparr>signal_emitter = \<lparr>emitted = []\<rparr>, map_m = []\<rparr>"

text \<open>
  \<open>signal_emitter.emit(sig)\<close> inside a member function: the callbacks run while the
  container holds what \<open>map_\<close> (here \<open>map_m\<close>) holds at this point of the function.
\<close>

definition emit_signal ::
  "('k, 'v) ReactiveUnorderedMap \<Rightarrow> ('k, 'v) signal \<Rightarrow> ('k, 'v) ReactiveUnorderedMap" where
  "emit_signal s sig = s\<lparr>signal_emitter := emit (signal_emitter s) (map_m s) sig\<rparr>"

subsection \<open>Observers\<close>

definition empty_r :: "('k, 'v) ReactiveUnorderedMap \<Rightarrow> bool" where
  "empty_r s = um_empty (map_m s)"

definition size_r :: "('k, 'v) ReactiveUnorderedMap \<Rightarrow> nat" where
  "size_r s = um_size (map_m s)"

definition reserve ::
  "('k, 'v) ReactiveUnorderedMap \<Rightarrow> nat \<Rightarrow> ('k, 'v) ReactiveUnorderedMap" where
  "reserve s n = s\<lparr>map_m := um_reserve (map_m s) n\<rparr>"

definition begin_r :: "('k, 'v) ReactiveUnorderedMap \<Rightarrow> iterator" where
  "begin_r s = um_begin (map_m s)"

definition end_r :: "('k, 'v) ReactiveUnorderedMap \<Rightarrow> iterator" where
  "end_r s = um_end (map_m s)"

subsection \<open>Lookup\<close>

definition find_r :: "('k, 'v) ReactiveUnorderedMap \<Rightarrow> 'k \<Rightarrow> iterator" where
  "find_r s k = um_find (map_m s) k"

definition contains :: "('k, 'v) ReactiveUnorderedMap \<Rightarrow> 'k \<Rightarrow> bool" where
  "contains s k = (um_find (map_m s) k \<noteq> um_end (map_m s))"

definition at :: "('k, 'v) ReactiveUnorderedMap \<Rightarrow> 'k \<Rightarrow> error + 'v" where
  "at s k = um_at (map_m s) k"

text \<open>
  The spec's \<open>lookup\<close> is \<open>find\<close> with the caller's test against \<open>end()\<close>: the
  mapped value the iterator points to, or nothing. \<open>um_lookup\<close> is that reading of
  a given content of the container, also the one a callback sees during an emission.
\<close>

definition um_lookup :: "('k, 'v) unordered_map \<Rightarrow> 'k \<Rightarrow> 'v option" where
  "um_lookup m k =
     (let it = um_find m k in
      if it = um_end m then None else Some (snd (m ! it)))"

definition lookup :: "('k, 'v) ReactiveUnorderedMap \<Rightarrow> 'k \<Rightarrow> 'v option" where
  "lookup s k = um_lookup (map_m s) k"

text \<open>The class invariant: the wrapped container has unique keys.\<close>

definition invar :: "('k, 'v) ReactiveUnorderedMap \<Rightarrow> bool" where
  "invar s = um_invar (map_m s)"

text \<open>The signals emitted so far, oldest first.\<close>

definition emitted_signals :: "('k, 'v) ReactiveUnorderedMap \<Rightarrow> ('k, 'v) signal list" where
  "emitted_signals s = map fst (emitted (signal_emitter s))"

subsection \<open>Modifiers\<close>

definition insert_or_assign ::
  "('k, 'v) ReactiveUnorderedMap \<Rightarrow> 'k \<Rightarrow> 'v \<Rightarrow>
   ('k, 'v) ReactiveUnorderedMap \<times> iterator \<times> bool" where
  "insert_or_assign s key val =
     (case um_insert_or_assign (map_m s) key val of
        (m', it, inserted) \<Rightarrow> (s\<lparr>map_m := m'\<rparr>, it, inserted))"

definition try_emplace ::
  "('k, 'v) ReactiveUnorderedMap \<Rightarrow> 'k \<Rightarrow> ('a \<Rightarrow> 'v) \<Rightarrow> 'a \<Rightarrow>
   ('k, 'v) ReactiveUnorderedMap \<times> iterator \<times> bool" where
  "try_emplace s key construct args =
     (case um_try_emplace (map_m s) key construct args of
        (m', it, inserted) \<Rightarrow> (s\<lparr>map_m := m'\<rparr>, it, inserted))"

definition emplace ::
  "('k, 'v) ReactiveUnorderedMap \<Rightarrow> 'k \<Rightarrow> 'v \<Rightarrow>
   ('k, 'v) ReactiveUnorderedMap \<times> iterator \<times> bool" where
  "emplace s key val =
     (case um_emplace (map_m s) key val of
        (m', it, inserted) \<Rightarrow>
          (let s1 = s\<lparr>map_m := m'\<rparr>;
               s2 = (if inserted
                     then emit_signal s1 (Inserted (fst (map_m s1 ! it)) (snd (map_m s1 ! it)))
                     else s1)
           in (s2, it, inserted)))"

text \<open>\<open>operator[]\<close>: the new state and the value the returned reference reads.\<close>

definition subscript ::
  "'v \<Rightarrow> ('k, 'v) ReactiveUnorderedMap \<Rightarrow> 'k \<Rightarrow> ('k, 'v) ReactiveUnorderedMap \<times> 'v" where
  "subscript dflt s key =
     (case um_subscript dflt (map_m s) key of
        (m', it) \<Rightarrow> (s\<lparr>map_m := m'\<rparr>, snd (m' ! it)))"

text \<open>
  \<open>erase(const Key &key)\<close> reads its parameter again after it has changed the
  container: the \<open>Erased\<close> signal is built from \<open>key\<close> itself, while the mapped
  value is copied before (\<open>old_value\<close>). So it matters what the reference refers to.
  \<open>Outside k\<close> is a reference to a key object of the caller's, which lives through
  the call; \<open>Inside k\<close> is a reference to the key stored in the container's own
  element for \<open>k\<close>, as in \<open>m.erase(it->first)\<close>. The latter refers to an object
  only as long as that element is in the container: reading it afterwards is undefined
  behaviour (\<open>read_key\<close>). The other members read their key parameter only before
  they change the container, so they take the key's value.
\<close>

datatype undefined_behaviour = DanglingReference

datatype 'k key_ref = Outside 'k | Inside 'k

fun read_key :: "('k, 'v) unordered_map \<Rightarrow> 'k key_ref \<Rightarrow> undefined_behaviour + 'k" where
  "read_key m (Outside k) = Inr k"
| "read_key m (Inside k) =
     (if um_find m k = um_end m then Inl DanglingReference else Inr k)"

definition erase ::
  "('k, 'v) ReactiveUnorderedMap \<Rightarrow> 'k key_ref \<Rightarrow>
   undefined_behaviour + ('k, 'v) ReactiveUnorderedMap \<times> nat" where
  "erase s key =
     (case read_key (map_m s) key of
        Inl u \<Rightarrow> Inl u
      | Inr k \<Rightarrow>
          (let it = um_find (map_m s) k in
           if it = um_end (map_m s) then Inr (s, 0)
           else
             (let old_value = snd (map_m s ! it) in
              case um_erase_key (map_m s) k of
                (m', num_elts_erased) \<Rightarrow>
                  (let s1 = s\<lparr>map_m := m'\<rparr> in
                   if num_elts_erased = 1
                   then (case read_key (map_m s1) key of
                           Inl u \<Rightarrow> Inl u
                         | Inr k' \<Rightarrow>
                             Inr (emit_signal s1 (Erased k' old_value), num_elts_erased))
                   else Inr (s1, num_elts_erased)))))"

definition erase_pos ::
  "('k, 'v) ReactiveUnorderedMap \<Rightarrow> iterator \<Rightarrow>
   (('k, 'v) ReactiveUnorderedMap \<times> iterator) option" where
  "erase_pos s pos =
     (case um_erase_pos (map_m s) pos of
        None \<Rightarrow> None
      | Some (m', it) \<Rightarrow> Some (s\<lparr>map_m := m'\<rparr>, it))"

definition clear :: "('k, 'v) ReactiveUnorderedMap \<Rightarrow> ('k, 'v) ReactiveUnorderedMap" where
  "clear s = s\<lparr>map_m := um_clear (map_m s)\<rparr>"

definition update_if_exists ::
  "('k, 'v) ReactiveUnorderedMap \<Rightarrow> 'k \<Rightarrow> 'v \<Rightarrow> ('k, 'v) ReactiveUnorderedMap \<times> bool" where
  "update_if_exists s key new_value =
     (let it = um_find (map_m s) key in
      if it = um_end (map_m s) then (s, False)
      else (s\<lparr>map_m := (map_m s)[it := (fst (map_m s ! it), new_value)]\<rparr>, True))"

section \<open>Sequences of modifier calls\<close>

text \<open>
  One call of a modifier, with its arguments. \<open>OpTryEmplace k v\<close> builds the
  mapped value from \<open>v\<close> itself (the copy constructor). \<open>OpErase k\<close> is
  \<open>erase\<close> with a key object of the caller's. A call whose behaviour is undefined
  has no next state.
\<close>

datatype ('k, 'v) op =
    OpEmplace 'k 'v
  | OpInsertOrAssign 'k 'v
  | OpTryEmplace 'k 'v
  | OpSubscript 'k
  | OpUpdateIfExists 'k 'v
  | OpErase 'k
  | OpErasePos iterator
  | OpClear
  | OpReserve nat

fun apply_op ::
  "'v \<Rightarrow> ('k, 'v) ReactiveUnorderedMap \<Rightarrow> ('k, 'v) op \<Rightarrow>
   ('k, 'v) ReactiveUnorderedMap option" where
  "apply_op dflt s (OpEmplace k v) = Some (fst (emplace s k v))"
| "apply_op dflt s (OpInsertOrAssign k v) = Some (fst (insert_or_assign s k v))"
| "apply_op dflt s (OpTryEmplace k v) = Some (fst (try_emplace s k (\<lambda>x. x) v))"
| "apply_op dflt s (OpSubscript k) = Some (fst (subscript dflt s k))"
| "apply_op dflt s (OpUpdateIfExists k v) = Some (fst (update_if_exists s k v))"
| "apply_op dflt s (OpErase k) =
     (case erase s (Outside k) of Inl u \<Rightarrow> None | Inr (s', n) \<Rightarrow> Some s')"
| "apply_op dflt s (OpErasePos pos) = map_option fst (erase_pos s pos)"
| "apply_op dflt s OpClear = Some (clear s)"
| "apply_op dflt s (OpReserve n) = Some (reserve s n)"

fun run_ops ::
  "'v \<Rightarrow> ('k, 'v) ReactiveUnorderedMap \<Rightarrow> ('k, 'v) op list \<Rightarrow>
   ('k, 'v) ReactiveUnorderedMap option" where
  "run_ops dflt s [] = Some s"
| "run_ops dflt s (x # xs) =
     (case apply_op dflt s x of None \<Rightarrow> None | Some s' \<Rightarrow> run_ops dflt s' xs)"

section \<open>Facts about the container model\<close>

subsection \<open>Finding a key\<close>

lemma um_find_le: "um_find m k \<le> length m"
  by (induction m) auto

lemma um_find_end_iff: "um_find m k = length m \<longleftrightarrow> k \<notin> fst ` set m"
proof (induction m)
  case Nil
  then show ?case by simp
next
  case (Cons e m)
  have "um_find m k \<le> length m" by (rule um_find_le)
  with Cons show ?case by auto
qed

lemma um_find_lt_iff: "um_find m k < length m \<longleftrightarrow> k \<in> fst ` set m"
  using um_find_le [of m k] um_find_end_iff [of m k] by auto

lemma um_find_key: "k \<in> fst ` set m \<Longrightarrow> fst (m ! um_find m k) = k"
  by (induction m) auto

lemma um_find_nth:
  "distinct (map fst m) \<Longrightarrow> i < length m \<Longrightarrow> um_find m (fst (m ! i)) = i"
proof (induction m arbitrary: i)
  case Nil
  then show ?case by simp
next
  case (Cons e m)
  show ?case
  proof (cases i)
    case 0
    then show ?thesis by simp
  next
    case (Suc j)
    with Cons.prems have j: "j < length m" and d: "distinct (map fst m)" by simp_all
    from j have "fst (m ! j) \<in> fst ` set m" by simp
    moreover from Cons.prems have "fst e \<notin> fst ` set m" by simp
    ultimately have "fst e \<noteq> fst (m ! j)" by metis
    with Cons.IH [OF d j] Suc show ?thesis by simp
  qed
qed

lemma um_find_map_of:
  "(if um_find m k = length m then None else Some (snd (m ! um_find m k))) = map_of m k"
proof (induction m)
  case Nil
  then show ?case by simp
next
  case (Cons e m)
  have "um_find m k \<le> length m" by (rule um_find_le)
  with Cons show ?case by (cases e) (auto split: if_splits)
qed

lemma um_find_value:
  "um_find m k \<noteq> length m \<Longrightarrow> map_of m k = Some (snd (m ! um_find m k))"
  using um_find_map_of [of m k] by (simp split: if_splits)

lemma um_lookup_map_of: "um_lookup m k = map_of m k"
  using um_find_map_of [of m k]
  by (simp add: um_lookup_def um_end_def Let_def)

lemma lookup_map_of: "lookup s k = map_of (map_m s) k"
  by (simp add: lookup_def um_lookup_map_of)

lemma contains_iff: "contains s k \<longleftrightarrow> k \<in> fst ` set (map_m s)"
  by (simp add: contains_def um_end_def um_find_end_iff)

lemma contains_map_of: "contains s k \<longleftrightarrow> map_of (map_m s) k \<noteq> None"
  by (simp add: contains_iff map_of_eq_None_iff)

lemma contains_lookup: "contains s k \<longleftrightarrow> lookup s k \<noteq> None"
  by (simp add: contains_map_of lookup_map_of)

subsection \<open>Removing and assigning an element\<close>

lemma map_of_remove_nth:
  "distinct (map fst m) \<Longrightarrow> i < length m \<Longrightarrow>
   map_of (take i m @ drop (Suc i) m) = (map_of m)(fst (m ! i) := None)"
proof (induction m arbitrary: i)
  case Nil
  then show ?case by simp
next
  case (Cons e m)
  show ?case
  proof (cases i)
    case 0
    from Cons.prems have "fst e \<notin> fst ` set m" by simp
    then have "map_of m (fst e) = None" by (simp add: map_of_eq_None_iff)
    then have "map_of m = (map_of (e # m))(fst e := None)"
      by (cases e) (auto simp: fun_eq_iff)
    with 0 show ?thesis by (simp del: map_of.simps fun_upd_apply)
  next
    case (Suc j)
    with Cons.prems have j: "j < length m" and d: "distinct (map fst m)" by simp_all
    from j have "fst (m ! j) \<in> fst ` set m" by simp
    moreover from Cons.prems have "fst e \<notin> fst ` set m" by simp
    ultimately have ne: "fst (m ! j) \<noteq> fst e" by metis
    from Cons.IH [OF d j] Suc ne show ?thesis
      by (cases e) (auto simp: fun_eq_iff)
  qed
qed

lemma distinct_remove_nth:
  "distinct (map fst m) \<Longrightarrow> distinct (map fst (take i m @ drop (Suc i) m))"
proof -
  assume d: "distinct (map fst m)"
  from d have t: "distinct (take i (map fst m))" by (rule distinct_take)
  from d have dr: "distinct (drop (Suc i) (map fst m))" by (rule distinct_drop)
  from d have "set (take i (map fst m)) \<inter> set (drop (Suc i) (map fst m)) = {}"
    by (rule set_take_disj_set_drop_if_distinct) simp
  with t dr have "distinct (take i (map fst m) @ drop (Suc i) (map fst m))"
    by simp
  then show ?thesis by (simp add: take_map drop_map)
qed

lemma length_remove_nth: "i < length m \<Longrightarrow> Suc (length (take i m @ drop (Suc i) m)) = length m"
  by simp

lemma map_of_assign:
  "um_find m k \<noteq> length m \<Longrightarrow>
   map_of (m[um_find m k := (fst (m ! um_find m k), v)]) = (map_of m)(k \<mapsto> v)"
proof (induction m)
  case Nil
  then show ?case by simp
next
  case (Cons e m)
  then show ?case by (cases e) (auto simp: fun_eq_iff)
qed

lemma map_fst_assign: "map fst (m[i := (fst (m ! i), v)]) = map fst m"
  by (induction m arbitrary: i) (auto split: nat.splits)

subsection \<open>The invariant\<close>

lemma invar_new_map: "invar new_map"
  by (simp add: invar_def um_invar_def new_map_def)

lemma invar_emplace: "invar s \<Longrightarrow> invar (fst (emplace s k v))"
  by (simp add: emplace_def um_emplace_def um_end_def Let_def invar_def um_invar_def
      emit_signal_def um_find_end_iff)

lemma invar_insert_or_assign: "invar s \<Longrightarrow> invar (fst (insert_or_assign s k v))"
  by (simp add: insert_or_assign_def um_insert_or_assign_def um_end_def Let_def invar_def
      um_invar_def um_find_end_iff map_fst_assign)

lemma invar_try_emplace: "invar s \<Longrightarrow> invar (fst (try_emplace s k c a))"
  by (simp add: try_emplace_def um_try_emplace_def um_end_def Let_def invar_def um_invar_def
      um_find_end_iff)

lemma invar_subscript: "invar s \<Longrightarrow> invar (fst (subscript dflt s k))"
  by (simp add: subscript_def um_subscript_def um_end_def Let_def invar_def um_invar_def
      um_find_end_iff)

lemma invar_update_if_exists: "invar s \<Longrightarrow> invar (fst (update_if_exists s k v))"
  by (simp add: update_if_exists_def um_end_def Let_def invar_def um_invar_def map_fst_assign)

lemma erase_outside_absent:
  "um_find (map_m s) k = length (map_m s) \<Longrightarrow> erase s (Outside k) = Inr (s, 0)"
  by (simp add: erase_def um_end_def)

lemma erase_outside_present:
  "um_find (map_m s) k \<noteq> length (map_m s) \<Longrightarrow>
   erase s (Outside k) =
     Inr (emit_signal
            (s\<lparr>map_m := take (um_find (map_m s) k) (map_m s)
                          @ drop (Suc (um_find (map_m s) k)) (map_m s)\<rparr>)
            (Erased k (snd (map_m s ! um_find (map_m s) k))), 1)"
  by (simp add: erase_def um_erase_key_def um_end_def Let_def)

lemma erase_inside_present:
  assumes "invar s" and "contains s k"
  shows "erase s (Inside k) = Inl DanglingReference"
proof -
  let ?m = "map_m s"
  let ?it = "um_find ?m k"
  define m' where "m' = take ?it ?m @ drop (Suc ?it) ?m"
  from assms have d: "distinct (map fst ?m)" and ne: "?it \<noteq> length ?m"
    by (simp_all add: invar_def um_invar_def contains_def um_end_def)
  from ne um_find_le [of ?m k] have it: "?it < length ?m" by simp
  then have key: "fst (?m ! ?it) = k" by (simp add: um_find_key um_find_lt_iff [symmetric])
  have "map_of m' k = None"
    unfolding m'_def using map_of_remove_nth [OF d it] key by simp
  then have "k \<notin> fst ` set m'" by (simp add: map_of_eq_None_iff)
  then have "um_find m' k = length m'" by (simp add: um_find_end_iff)
  with ne show ?thesis
    by (simp add: erase_def um_erase_key_def um_end_def Let_def m'_def [symmetric])
qed

lemma invar_erase: "invar s \<Longrightarrow> erase s key = Inr (s', n) \<Longrightarrow> invar s'"
  by (auto simp: erase_def um_erase_key_def um_end_def Let_def invar_def um_invar_def
      emit_signal_def distinct_remove_nth simp del: map_append
      split: sum.splits if_splits)

lemma invar_erase_pos: "invar s \<Longrightarrow> erase_pos s pos = Some (s', it) \<Longrightarrow> invar s'"
  by (auto simp: erase_pos_def um_erase_pos_def invar_def um_invar_def distinct_remove_nth
      simp del: map_append split: if_splits)

lemma invar_clear: "invar (clear s)"
  by (simp add: clear_def um_clear_def invar_def um_invar_def)

lemma invar_reserve: "invar s \<Longrightarrow> invar (reserve s n)"
  by (simp add: reserve_def um_reserve_def invar_def)

lemma invar_apply_op: "invar s \<Longrightarrow> apply_op dflt s x = Some s' \<Longrightarrow> invar s'"
proof (cases x)
  case (OpErasePos pos)
  assume "invar s" "apply_op dflt s x = Some s'"
  with OpErasePos show ?thesis by (auto dest: invar_erase_pos)
next
  case (OpErase k)
  assume "invar s" "apply_op dflt s x = Some s'"
  with OpErase show ?thesis by (auto split: sum.splits dest: invar_erase)
qed (auto simp: invar_emplace invar_insert_or_assign invar_try_emplace invar_subscript
      invar_update_if_exists invar_clear invar_reserve)

lemma invar_run_ops: "invar s \<Longrightarrow> run_ops dflt s ops = Some s' \<Longrightarrow> invar s'"
proof (induction ops arbitrary: s)
  case Nil
  then show ?case by simp
next
  case (Cons x ops)
  then show ?case by (auto split: option.splits dest: invar_apply_op)
qed

lemma invar_size: "invar s \<Longrightarrow> size_r s = card {k. contains s k}"
proof -
  assume "invar s"
  then have "distinct (map fst (map_m s))" by (simp add: invar_def um_invar_def)
  then have "card (set (map fst (map_m s))) = length (map fst (map_m s))"
    by (rule distinct_card)
  moreover have "{k. contains s k} = set (map fst (map_m s))"
    by (auto simp: contains_iff)
  ultimately show ?thesis by (simp add: size_r_def um_size_def)
qed

lemma erase_outside_defined: "\<exists>s' n. erase s (Outside k) = Inr (s', n)"
  by (cases "um_find (map_m s) k = length (map_m s)")
    (simp_all add: erase_outside_absent erase_outside_present)

lemma apply_op_total: "(\<forall>p. x \<noteq> OpErasePos p) \<Longrightarrow> apply_op dflt s x \<noteq> None"
proof (cases x)
  case (OpErase k)
  obtain s' n where "erase s (Outside k) = Inr (s', n)"
    using erase_outside_defined [of s k] by blast
  with OpErase show ?thesis by simp
qed simp_all

lemma run_ops_total:
  "\<forall>x \<in> set ops. \<forall>p. x \<noteq> OpErasePos p \<Longrightarrow> run_ops dflt s ops \<noteq> None"
proof (induction ops arbitrary: s)
  case Nil
  then show ?case by simp
next
  case (Cons x ops)
  from Cons.prems have "apply_op dflt s x \<noteq> None" by (simp add: apply_op_total)
  then obtain s' where "apply_op dflt s x = Some s'" by blast
  with Cons show ?case by simp
qed

section \<open>The claims\<close>

subsection \<open>Claim C1: \<open>emplace\<close>\<close>

text \<open>
  C1. \<open>emplace\<close> on a store that does not hold the key adds the entry, returns
  \<open>inserted = true\<close> and emits exactly one \<open>Inserted\<close> signal with that key and
  value, and a lookup of the key then gives the inserted value; the other keys keep
  their values and the size grows by one. On a store that holds the key it returns
  \<open>inserted = false\<close> with the iterator of the existing element and leaves the whole
  object as it was: the stored value is unchanged and nothing is emitted.
\<close>

theorem emplace_absent_or_present:
  "(\<not> contains s k \<longrightarrow>
      (case emplace s k v of (s', it, inserted) \<Rightarrow>
         inserted \<and> lookup s' k = Some v \<and> size_r s' = Suc (size_r s)
         \<and> (\<forall>k'. k' \<noteq> k \<longrightarrow> lookup s' k' = lookup s k')
         \<and> emitted_signals s' = emitted_signals s @ [Inserted k v]
         \<and> it \<noteq> end_r s' \<and> map_m s' ! it = (k, v)))
   \<and> (contains s k \<longrightarrow> emplace s k v = (s, find_r s k, False))"
  by (simp add: emplace_def um_emplace_def contains_def Let_def lookup_map_of size_r_def
      um_size_def emitted_signals_def emit_signal_def emit_def end_r_def um_end_def find_r_def)

text \<open>
  The scenario of the spec: \<open>emplace("a", 1)\<close> on the empty store, then
  \<open>emplace("a", 2)\<close>.
\<close>

theorem emplace_absent_or_present_witness:
  "\<not> contains (new_map :: (string, int) ReactiveUnorderedMap) ''a''
   \<and> (case emplace (new_map :: (string, int) ReactiveUnorderedMap) ''a'' 1 of
        (s', it, inserted) \<Rightarrow>
          inserted \<and> lookup s' ''a'' = Some 1 \<and> emitted_signals s' = [Inserted ''a'' 1])
   \<and> contains (fst (emplace (new_map :: (string, int) ReactiveUnorderedMap) ''a'' 1)) ''a''
   \<and> emplace (fst (emplace (new_map :: (string, int) ReactiveUnorderedMap) ''a'' 1)) ''a'' 2
       = (fst (emplace new_map ''a'' 1), 0, False)
   \<and> lookup (fst (emplace (fst (emplace (new_map :: (string, int) ReactiveUnorderedMap)
         ''a'' 1)) ''a'' 2)) ''a'' = Some 1"
  using emplace_absent_or_present [of "new_map :: (string, int) ReactiveUnorderedMap" "''a''" 1]
    emplace_absent_or_present
      [of "fst (emplace (new_map :: (string, int) ReactiveUnorderedMap) ''a'' 1)" "''a''" 2]
  by (simp add: new_map_def contains_def emplace_def um_emplace_def um_end_def Let_def
      emit_signal_def emit_def emitted_signals_def lookup_def um_lookup_def find_r_def)

subsection \<open>Claim C2: \<open>erase\<close> by key\<close>

text \<open>
  C2. On a store that holds the key, \<open>erase(key)\<close> with a key object of the
  caller's removes the entry, returns 1 and emits exactly one \<open>Erased\<close> signal
  whose old value is the value the key had just before; the other keys keep their
  values and the size shrinks by one. On a store that does not hold the key it returns
  0 and leaves the whole object as it was. With a reference to the stored key itself,
  as in \<open>m.erase(it->first)\<close>, the element is removed and the \<open>Erased\<close> signal
  is then built from the reference to the removed key: the old value was copied before
  the removal, the key was not, and the behaviour is undefined.
\<close>

theorem erase_by_key_reference:
  "(invar s \<and> contains s k \<longrightarrow>
      (\<exists>s'. erase s (Outside k) = Inr (s', 1)
         \<and> \<not> contains s' k \<and> Suc (size_r s') = size_r s
         \<and> (\<forall>k'. k' \<noteq> k \<longrightarrow> lookup s' k' = lookup s k')
         \<and> (\<exists>old_value. lookup s k = Some old_value
               \<and> emitted_signals s' = emitted_signals s @ [Erased k old_value]))
      \<and> erase s (Inside k) = Inl DanglingReference)
   \<and> (\<not> contains s k \<longrightarrow> erase s (Outside k) = Inr (s, 0))"
proof (intro conjI impI)
  let ?m = "map_m s"
  let ?it = "um_find ?m k"
  define m' where "m' = take ?it ?m @ drop (Suc ?it) ?m"
  assume a: "invar s \<and> contains s k"
  then have d: "distinct (map fst ?m)" and ne: "?it \<noteq> length ?m"
    by (simp_all add: invar_def um_invar_def contains_def um_end_def)
  from ne um_find_le [of ?m k] have it: "?it < length ?m" by simp
  then have key: "fst (?m ! ?it) = k" by (simp add: um_find_key um_find_lt_iff [symmetric])
  have old: "map_of ?m k = Some (snd (?m ! ?it))" using ne by (rule um_find_value)
  have e: "erase s (Outside k)
            = Inr (emit_signal (s\<lparr>map_m := m'\<rparr>) (Erased k (snd (?m ! ?it))), 1)"
    unfolding m'_def using ne by (rule erase_outside_present)
  have mo: "map_of m' = (map_of ?m)(k := None)"
    unfolding m'_def using map_of_remove_nth [OF d it] key by simp
  have len: "Suc (length m') = length ?m"
    unfolding m'_def using it by (rule length_remove_nth)
  show "\<exists>s'. erase s (Outside k) = Inr (s', 1)
         \<and> \<not> contains s' k \<and> Suc (size_r s') = size_r s
         \<and> (\<forall>k'. k' \<noteq> k \<longrightarrow> lookup s' k' = lookup s k')
         \<and> (\<exists>old_value. lookup s k = Some old_value
               \<and> emitted_signals s' = emitted_signals s @ [Erased k old_value])"
    unfolding e using len
    by (simp add: contains_map_of lookup_map_of mo old size_r_def um_size_def
        emit_signal_def emit_def emitted_signals_def)
  from a show "erase s (Inside k) = Inl DanglingReference"
    by (simp add: erase_inside_present)
next
  assume "\<not> contains s k"
  then show "erase s (Outside k) = Inr (s, 0)"
    by (simp add: erase_outside_absent contains_def um_end_def)
qed

text \<open>
  After \<open>emplace("a", 1)\<close>: erasing \<open>"a"\<close> with a key object of the caller's, and
  with the reference to the stored key; and erasing \<open>"a"\<close> from the empty store.
\<close>

theorem erase_by_key_reference_witness:
  "invar (fst (emplace (new_map :: (string, int) ReactiveUnorderedMap) ''a'' 1))
   \<and> contains (fst (emplace (new_map :: (string, int) ReactiveUnorderedMap) ''a'' 1)) ''a''
   \<and> erase (fst (emplace (new_map :: (string, int) ReactiveUnorderedMap) ''a'' 1))
        (Outside ''a'')
      = Inr (\<lparr>signal_emitter = \<lparr>emitted =
                 [(Inserted ''a'' 1, [(''a'', 1)]), (Erased ''a'' 1, [])]\<rparr>, map_m = []\<rparr>, 1)
   \<and> erase (fst (emplace (new_map :: (string, int) ReactiveUnorderedMap) ''a'' 1))
        (Inside ''a'')
      = Inl DanglingReference
   \<and> \<not> contains (new_map :: (string, int) ReactiveUnorderedMap) ''a''
   \<and> erase (new_map :: (string, int) ReactiveUnorderedMap) (Outside ''a'') = Inr (new_map, 0)"
  using erase_by_key_reference
      [of "fst (emplace (new_map :: (string, int) ReactiveUnorderedMap) ''a'' 1)" "''a''"]
    erase_by_key_reference [of "new_map :: (string, int) ReactiveUnorderedMap" "''a''"]
  by (simp add: new_map_def contains_def emplace_def um_emplace_def um_end_def Let_def
      emit_signal_def emit_def erase_def um_erase_key_def invar_def um_invar_def)

subsection \<open>Claim C3: \<open>clear\<close>\<close>

text \<open>
  C3 as the spec states it has \<open>clear\<close> emit one \<open>Cleared\<close> signal. \<open>clear\<close> only calls
  \<open>map_.clear()\<close>: after \<open>emplace("a", 1)\<close> and \<open>clear()\<close> the emitted signals
  are not the earlier ones followed by \<open>Cleared\<close>.
\<close>

theorem clear_emits_cleared_counterexample:
  "\<not> (emitted_signals (clear (fst (emplace (new_map :: (string, int) ReactiveUnorderedMap) ''a'' 1)))
       = emitted_signals (fst (emplace (new_map :: (string, int) ReactiveUnorderedMap) ''a'' 1))
         @ [Cleared])"
  by (simp add: new_map_def clear_def um_clear_def emitted_signals_def emplace_def
      um_emplace_def um_end_def emit_signal_def emit_def)

text \<open>
  C3, as the code has it. \<open>clear\<close> removes every entry, so that the size is 0, the
  store is empty and holds no key, and it emits no signal, on an empty store as on
  any other: the emitter is left as it was.
\<close>

theorem clear_no_signal:
  "size_r (clear s) = 0 \<and> empty_r (clear s) \<and> (\<forall>k. \<not> contains (clear s) k)
   \<and> signal_emitter (clear s) = signal_emitter s
   \<and> emitted_signals (clear s) = emitted_signals s"
  by (simp add: clear_def um_clear_def size_r_def um_size_def empty_r_def um_empty_def
      contains_def um_end_def emitted_signals_def)

subsection \<open>Claim C4: the size and the keys\<close>

text \<open>
  C4. After any sequence of modifier calls on a newly constructed store (the inserting
  ones \<open>emplace\<close>, \<open>insert_or_assign\<close>, \<open>try_emplace\<close>, \<open>operator[]\<close>, the
  removing ones \<open>erase\<close> by key and by position, and \<open>update_if_exists\<close>,
  \<open>clear\<close>, \<open>reserve\<close>), \<open>size()\<close> is the number of distinct keys the store
  holds. A sequence without \<open>erase(pos)\<close>, whose behaviour is undefined at a
  position that is not dereferenceable, always runs to the end.
\<close>

theorem size_counts_distinct_keys:
  "(\<forall>s. run_ops dflt new_map ops = Some s \<longrightarrow> size_r s = card {k. contains s k})
   \<and> ((\<forall>x \<in> set ops. \<forall>p. x \<noteq> OpErasePos p) \<longrightarrow> run_ops dflt new_map ops \<noteq> None)"
proof (intro conjI allI impI)
  fix s
  assume "run_ops dflt new_map ops = Some s"
  with invar_new_map have "invar s" by (rule invar_run_ops)
  then show "size_r s = card {k. contains s k}" by (rule invar_size)
next
  assume "\<forall>x \<in> set ops. \<forall>p. x \<noteq> OpErasePos p"
  then show "run_ops dflt new_map ops \<noteq> None" by (rule run_ops_total)
qed

text \<open>
  \<open>emplace("a", 1)\<close>, \<open>emplace("b", 2)\<close>, \<open>emplace("a", 3)\<close>, \<open>erase("b")\<close>: one
  key is left.
\<close>

theorem size_counts_distinct_keys_witness:
  "run_ops (0 :: int) new_map [OpEmplace ''a'' 1, OpEmplace ''b'' 2, OpEmplace ''a'' 3, OpErase ''b'']
     = Some \<lparr>signal_emitter = \<lparr>emitted =
          [(Inserted ''a'' 1, [(''a'', 1)]),
           (Inserted ''b'' 2, [(''b'', 2), (''a'', 1)]),
           (Erased ''b'' 2, [(''a'', 1)])]\<rparr>, map_m = [(''a'', 1)]\<rparr>
   \<and> card {k. contains \<lparr>signal_emitter = \<lparr>emitted =
          [(Inserted ''a'' 1, [(''a'', 1)]),
           (Inserted ''b'' 2, [(''b'', 2), (''a'', 1)]),
           (Erased ''b'' 2, [(''a'', 1 :: int)])]\<rparr>, map_m = [(''a'', 1)]\<rparr> k} = 1
   \<and> run_ops (0 :: int) new_map
         [OpEmplace ''a'' 1, OpEmplace ''b'' 2, OpEmplace ''a'' 3, OpErase ''b''] \<noteq> None"
proof -
  let ?ops = "[OpEmplace ''a'' 1, OpEmplace ''b'' 2, OpEmplace ''a'' 3, OpErase ''b'']
              :: (string, int) op list"
  let ?s = "\<lparr>signal_emitter = \<lparr>emitted =
          [(Inserted ''a'' 1, [(''a'', 1)]),
           (Inserted ''b'' 2, [(''b'', 2), (''a'', 1)]),
           (Erased ''b'' 2, [(''a'', 1 :: int)])]\<rparr>, map_m = [(''a'', 1)]\<rparr>"
  have r: "run_ops 0 new_map ?ops = Some ?s"
    by (simp add: new_map_def emplace_def um_emplace_def um_end_def Let_def emit_signal_def
        emit_def erase_def um_erase_key_def)
  have eq: "size_r ?s = card {k. contains ?s k}"
    using size_counts_distinct_keys [of 0 ?ops, THEN conjunct1, rule_format, OF r] .
  have sz: "size_r ?s = 1" by (simp add: size_r_def um_size_def)
  from eq [symmetric] sz have c: "card {k. contains ?s k} = 1" by (rule trans)
  have "\<forall>x \<in> set ?ops. \<forall>p. x \<noteq> OpErasePos p" by simp
  then have t: "run_ops 0 new_map ?ops \<noteq> None"
    by (rule size_counts_distinct_keys [of 0 ?ops, THEN conjunct2, THEN mp])
  from r c t show ?thesis by (intro conjI)
qed

subsection \<open>Claim C5: the signal is emitted after the change\<close>

text \<open>
  C5. \<open>emplace\<close> and \<open>erase\<close> by key call \<open>emit\<close> after they have changed the
  container. The content a callback can read during the emission is the content
  the call leaves behind: during the \<open>Inserted\<close> emission of an inserting
  \<open>emplace\<close> a lookup of the key gives the new value, and during the \<open>Erased\<close>
  emission of a removing \<open>erase\<close> (called with a key object of the caller's) a
  lookup of the key finds nothing.
\<close>

theorem emission_after_mutation:
  "(\<not> contains s k \<longrightarrow>
      (case emplace s k v of (s', it, inserted) \<Rightarrow>
         emitted (signal_emitter s') = emitted (signal_emitter s) @ [(Inserted k v, map_m s')]
         \<and> um_lookup (map_m s') k = Some v))
   \<and> (invar s \<and> contains s k \<longrightarrow>
      (\<exists>s' n. erase s (Outside k) = Inr (s', n)
         \<and> (\<exists>old_value. emitted (signal_emitter s')
               = emitted (signal_emitter s) @ [(Erased k old_value, map_m s')])
         \<and> um_lookup (map_m s') k = None \<and> um_find (map_m s') k = um_end (map_m s')))"
proof (intro conjI impI)
  assume "\<not> contains s k"
  then show "case emplace s k v of (s', it, inserted) \<Rightarrow>
         emitted (signal_emitter s') = emitted (signal_emitter s) @ [(Inserted k v, map_m s')]
         \<and> um_lookup (map_m s') k = Some v"
    by (simp add: emplace_def um_emplace_def contains_def Let_def um_lookup_map_of
        emit_signal_def emit_def)
next
  let ?m = "map_m s"
  let ?it = "um_find ?m k"
  define m' where "m' = take ?it ?m @ drop (Suc ?it) ?m"
  assume "invar s \<and> contains s k"
  then have d: "distinct (map fst ?m)" and ne: "?it \<noteq> length ?m"
    by (simp_all add: invar_def um_invar_def contains_def um_end_def)
  from ne um_find_le [of ?m k] have it: "?it < length ?m" by simp
  then have key: "fst (?m ! ?it) = k" by (simp add: um_find_key um_find_lt_iff [symmetric])
  have e: "erase s (Outside k)
            = Inr (emit_signal (s\<lparr>map_m := m'\<rparr>) (Erased k (snd (?m ! ?it))), 1)"
    unfolding m'_def using ne by (rule erase_outside_present)
  have mo: "map_of m' k = None"
    unfolding m'_def using map_of_remove_nth [OF d it] key by simp
  then have "k \<notin> fst ` set m'" by (simp add: map_of_eq_None_iff)
  then have fe: "um_find m' k = length m'" by (simp add: um_find_end_iff)
  show "\<exists>s' n. erase s (Outside k) = Inr (s', n)
         \<and> (\<exists>old_value. emitted (signal_emitter s')
               = emitted (signal_emitter s) @ [(Erased k old_value, map_m s')])
         \<and> um_lookup (map_m s') k = None \<and> um_find (map_m s') k = um_end (map_m s')"
    unfolding e using mo fe
    by (simp add: um_lookup_map_of emit_signal_def emit_def um_end_def)
qed

text \<open>\<open>emplace("a", 1)\<close> on the empty store, then \<open>erase("a")\<close>.\<close>

theorem emission_after_mutation_witness:
  "\<not> contains (new_map :: (string, int) ReactiveUnorderedMap) ''a''
   \<and> emitted (signal_emitter (fst (emplace (new_map :: (string, int) ReactiveUnorderedMap) ''a'' 1)))
       = [(Inserted ''a'' 1, [(''a'', 1)])]
   \<and> um_lookup [(''a'', 1 :: int)] ''a'' = Some 1
   \<and> invar (fst (emplace (new_map :: (string, int) ReactiveUnorderedMap) ''a'' 1))
   \<and> contains (fst (emplace (new_map :: (string, int) ReactiveUnorderedMap) ''a'' 1)) ''a''
   \<and> erase (fst (emplace (new_map :: (string, int) ReactiveUnorderedMap) ''a'' 1))
        (Outside ''a'')
       = Inr (\<lparr>signal_emitter = \<lparr>emitted =
                 [(Inserted ''a'' 1, [(''a'', 1)]), (Erased ''a'' 1, [])]\<rparr>, map_m = []\<rparr>, 1)
   \<and> um_lookup ([] :: (string \<times> int) list) ''a'' = None"
  using emission_after_mutation [of "new_map :: (string, int) ReactiveUnorderedMap" "''a''" 1]
    emission_after_mutation
      [of "fst (emplace (new_map :: (string, int) ReactiveUnorderedMap) ''a'' 1)" "''a''" 1]
  by (simp add: new_map_def contains_def emplace_def um_emplace_def um_end_def Let_def
      emit_signal_def emit_def erase_def um_erase_key_def invar_def um_invar_def
      um_lookup_def)

subsection \<open>Claim C6: \<open>insert_or_assign\<close>\<close>

text \<open>
  C6 as the spec states it has \<open>insert_or_assign\<close> emit \<open>Inserted\<close> for a new key.
  \<open>insert_or_assign\<close> only calls \<open>map_.insert_or_assign\<close>: on the empty store
  \<open>insert_or_assign("a", 1)\<close> inserts the key and emits nothing.
\<close>

theorem insert_or_assign_emits_inserted_counterexample:
  "\<not> (emitted_signals (fst (insert_or_assign
          (new_map :: (string, int) ReactiveUnorderedMap) ''a'' 1))
       = emitted_signals (new_map :: (string, int) ReactiveUnorderedMap) @ [Inserted ''a'' 1])"
  by (simp add: new_map_def insert_or_assign_def um_insert_or_assign_def um_end_def
      emitted_signals_def)

text \<open>
  C6, as the code has it. \<open>insert_or_assign\<close> inserts a new entry when the key is
  absent and overwrites the mapped value when it is present, so that a lookup of the
  key gives the value in both cases and the other keys keep theirs; the flag it
  returns is true exactly when the key was absent; it emits no signal in either case.
\<close>

theorem insert_or_assign_no_signal:
  "case insert_or_assign s k v of (s', it, inserted) \<Rightarrow>
     inserted = (\<not> contains s k)
     \<and> lookup s' k = Some v
     \<and> (\<forall>k'. k' \<noteq> k \<longrightarrow> lookup s' k' = lookup s k')
     \<and> size_r s' = (if contains s k then size_r s else Suc (size_r s))
     \<and> signal_emitter s' = signal_emitter s
     \<and> emitted_signals s' = emitted_signals s"
proof (cases "contains s k")
  case True
  then have ne: "um_find (map_m s) k \<noteq> length (map_m s)"
    by (simp add: contains_def um_end_def)
  from ne True map_of_assign [OF ne, of v] show ?thesis
    by (simp add: insert_or_assign_def um_insert_or_assign_def um_end_def Let_def
        lookup_map_of size_r_def um_size_def emitted_signals_def)
next
  case False
  then have "um_find (map_m s) k = length (map_m s)"
    by (simp add: contains_def um_end_def)
  with False show ?thesis
    by (simp add: insert_or_assign_def um_insert_or_assign_def um_end_def Let_def
        lookup_map_of size_r_def um_size_def emitted_signals_def)
qed

text \<open>A new key, and a key that is overwritten.\<close>

theorem insert_or_assign_no_signal_witness:
  "insert_or_assign (new_map :: (string, int) ReactiveUnorderedMap) ''a'' 1
     = (\<lparr>signal_emitter = \<lparr>emitted = []\<rparr>, map_m = [(''a'', 1)]\<rparr>, 0, True)
   \<and> insert_or_assign \<lparr>signal_emitter = \<lparr>emitted = []\<rparr>, map_m = [(''b'', 5), (''a'', 1 :: int)]\<rparr> ''a'' 2
     = (\<lparr>signal_emitter = \<lparr>emitted = []\<rparr>, map_m = [(''b'', 5), (''a'', 2)]\<rparr>, 1, False)
   \<and> lookup \<lparr>signal_emitter = \<lparr>emitted = []\<rparr>, map_m = [(''b'', 5), (''a'', 2 :: int)]\<rparr> ''b''
     = lookup \<lparr>signal_emitter = \<lparr>emitted = []\<rparr>, map_m = [(''b'', 5), (''a'', 1 :: int)]\<rparr> ''b''"
  using insert_or_assign_no_signal [of "new_map :: (string, int) ReactiveUnorderedMap" "''a''" 1]
    insert_or_assign_no_signal
      [of "\<lparr>signal_emitter = \<lparr>emitted = []\<rparr>, map_m = [(''b'', 5), (''a'', 1 :: int)]\<rparr>" "''a''" 2]
  by (simp add: new_map_def insert_or_assign_def um_insert_or_assign_def um_end_def Let_def
      lookup_def um_lookup_def)

subsection \<open>Claim C7: \<open>at\<close>\<close>

text \<open>
  C7. \<open>at\<close> fails, with the \<open>std::out_of_range\<close> of the container as its
  key-not-found error, exactly when the key is absent, and gives the mapped value when
  the key is present. The other lookups do not fail on an absent key: \<open>find\<close>
  gives \<open>end()\<close> and \<open>contains\<close> gives false.
\<close>

theorem at_fails_iff_absent:
  "(at s k = Inl OutOfRange \<longleftrightarrow> \<not> contains s k)
   \<and> (contains s k \<longrightarrow>
        (\<exists>v. at s k = Inr v \<and> lookup s k = Some v \<and> (k, v) \<in> set (map_m s)))
   \<and> (\<not> contains s k \<longrightarrow> find_r s k = end_r s \<and> lookup s k = None)"
proof (cases "contains s k")
  case True
  then have ne: "um_find (map_m s) k \<noteq> length (map_m s)"
    by (simp add: contains_def um_end_def)
  then have "map_of (map_m s) k = Some (snd (map_m s ! um_find (map_m s) k))"
    by (rule um_find_value)
  with True ne show ?thesis
    by (simp add: at_def um_at_def um_end_def Let_def lookup_map_of map_of_SomeD)
next
  case False
  then show ?thesis
    by (simp add: at_def um_at_def contains_def Let_def find_r_def end_r_def
        lookup_def um_lookup_def)
qed

text \<open>A present and an absent key of a store with two entries.\<close>

theorem at_fails_iff_absent_witness:
  "contains \<lparr>signal_emitter = \<lparr>emitted = []\<rparr>, map_m = [(1 :: nat, 10 :: int), (2, 20)]\<rparr> 2
   \<and> at \<lparr>signal_emitter = \<lparr>emitted = []\<rparr>, map_m = [(1 :: nat, 10 :: int), (2, 20)]\<rparr> 2 = Inr 20
   \<and> \<not> contains \<lparr>signal_emitter = \<lparr>emitted = []\<rparr>, map_m = [(1 :: nat, 10 :: int), (2, 20)]\<rparr> 3
   \<and> at \<lparr>signal_emitter = \<lparr>emitted = []\<rparr>, map_m = [(1 :: nat, 10 :: int), (2, 20)]\<rparr> 3
       = Inl OutOfRange
   \<and> find_r \<lparr>signal_emitter = \<lparr>emitted = []\<rparr>, map_m = [(1 :: nat, 10 :: int), (2, 20)]\<rparr> 3 = 2"
  using at_fails_iff_absent
      [of "\<lparr>signal_emitter = \<lparr>emitted = []\<rparr>, map_m = [(1 :: nat, 10 :: int), (2, 20)]\<rparr>" 2]
    at_fails_iff_absent
      [of "\<lparr>signal_emitter = \<lparr>emitted = []\<rparr>, map_m = [(1 :: nat, 10 :: int), (2, 20)]\<rparr>" 3]
  by (simp add: contains_def at_def um_at_def um_end_def Let_def find_r_def end_r_def
      lookup_def um_lookup_def)

subsection \<open>Claim C8: \<open>try_emplace\<close>\<close>

text \<open>
  C8. \<open>try_emplace\<close> adds an entry, built from the constructor arguments, exactly
  when the key is absent, and returns that as its flag; a present key leaves the
  object as it was. It emits no signal in either case. \<open>insert_or_assign\<close> and
  \<open>operator[]\<close> emit nothing either, while \<open>emplace\<close> of an absent key emits
  \<open>Inserted\<close>: \<open>emplace\<close> is the only inserting member that does.
\<close>

theorem try_emplace_no_signal:
  "(case try_emplace s k construct args of (s', it, inserted) \<Rightarrow>
      inserted = (\<not> contains s k)
      \<and> (\<not> contains s k \<longrightarrow>
           lookup s' k = Some (construct args) \<and> size_r s' = Suc (size_r s)
           \<and> (\<forall>k'. k' \<noteq> k \<longrightarrow> lookup s' k' = lookup s k'))
      \<and> (contains s k \<longrightarrow> s' = s \<and> it = find_r s k)
      \<and> signal_emitter s' = signal_emitter s)
   \<and> signal_emitter (fst (insert_or_assign s k v)) = signal_emitter s
   \<and> signal_emitter (fst (subscript dflt s k)) = signal_emitter s
   \<and> (\<not> contains s k \<longrightarrow>
        emitted_signals (fst (emplace s k v)) = emitted_signals s @ [Inserted k v])"
  by (simp add: try_emplace_def um_try_emplace_def insert_or_assign_def
      um_insert_or_assign_def subscript_def um_subscript_def emplace_def um_emplace_def
      contains_def um_end_def Let_def lookup_map_of size_r_def um_size_def find_r_def
      emitted_signals_def emit_signal_def emit_def)

text \<open>\<open>try_emplace\<close> of a new key and of a present key.\<close>

theorem try_emplace_no_signal_witness:
  "try_emplace (new_map :: (string, int) ReactiveUnorderedMap) ''a'' (\<lambda>n. int n + 1) (4 :: nat)
     = (\<lparr>signal_emitter = \<lparr>emitted = []\<rparr>, map_m = [(''a'', 5)]\<rparr>, 0, True)
   \<and> try_emplace \<lparr>signal_emitter = \<lparr>emitted = []\<rparr>, map_m = [(''a'', 5 :: int)]\<rparr>
        ''a'' (\<lambda>n. int n + 1) (7 :: nat)
     = (\<lparr>signal_emitter = \<lparr>emitted = []\<rparr>, map_m = [(''a'', 5)]\<rparr>, 0, False)
   \<and> emitted_signals (fst (emplace (new_map :: (string, int) ReactiveUnorderedMap) ''a'' 5))
     = [Inserted ''a'' 5]"
  using try_emplace_no_signal
      [of "new_map :: (string, int) ReactiveUnorderedMap" "''a''" "\<lambda>n. int n + 1" "4 :: nat" 5 0]
    try_emplace_no_signal
      [of "\<lparr>signal_emitter = \<lparr>emitted = []\<rparr>, map_m = [(''a'', 5 :: int)]\<rparr>" "''a''"
          "\<lambda>n. int n + 1" "7 :: nat" 5 0]
  by (simp add: new_map_def try_emplace_def um_try_emplace_def um_end_def Let_def
      contains_def emitted_signals_def)

subsection \<open>Claim C9: \<open>operator[]\<close>\<close>

text \<open>
  C9. For a key the store does not hold, \<open>operator[]\<close> inserts the
  default-constructed value under the key, so that the size grows by one, and the
  returned reference reads that value; no signal is emitted. For a key the store holds
  it leaves the object as it was and the reference reads the existing value.
\<close>

theorem subscript_no_signal:
  "(\<not> contains s k \<longrightarrow>
      (case subscript dflt s k of (s', r) \<Rightarrow>
         r = dflt \<and> lookup s' k = Some dflt \<and> size_r s' = Suc (size_r s)
         \<and> (\<forall>k'. k' \<noteq> k \<longrightarrow> lookup s' k' = lookup s k')
         \<and> signal_emitter s' = signal_emitter s \<and> emitted_signals s' = emitted_signals s))
   \<and> (contains s k \<longrightarrow>
      (case subscript dflt s k of (s', r) \<Rightarrow> s' = s \<and> lookup s k = Some r))"
proof (cases "contains s k")
  case True
  then have ne: "um_find (map_m s) k \<noteq> length (map_m s)"
    by (simp add: contains_def um_end_def)
  then have "map_of (map_m s) k = Some (snd (map_m s ! um_find (map_m s) k))"
    by (rule um_find_value)
  with True ne show ?thesis
    by (simp add: subscript_def um_subscript_def um_end_def Let_def lookup_map_of)
next
  case False
  then have "um_find (map_m s) k = length (map_m s)"
    by (simp add: contains_def um_end_def)
  with False show ?thesis
    by (simp add: subscript_def um_subscript_def um_end_def Let_def lookup_map_of
        size_r_def um_size_def emitted_signals_def)
qed

text \<open>An absent and a present key, with 0 as the default-constructed value.\<close>

theorem subscript_no_signal_witness:
  "\<not> contains (new_map :: (string, int) ReactiveUnorderedMap) ''a''
   \<and> subscript 0 (new_map :: (string, int) ReactiveUnorderedMap) ''a''
     = (\<lparr>signal_emitter = \<lparr>emitted = []\<rparr>, map_m = [(''a'', 0)]\<rparr>, 0)
   \<and> contains \<lparr>signal_emitter = \<lparr>emitted = []\<rparr>, map_m = [(''a'', 7 :: int)]\<rparr> ''a''
   \<and> subscript 0 \<lparr>signal_emitter = \<lparr>emitted = []\<rparr>, map_m = [(''a'', 7 :: int)]\<rparr> ''a''
     = (\<lparr>signal_emitter = \<lparr>emitted = []\<rparr>, map_m = [(''a'', 7)]\<rparr>, 7)"
  using subscript_no_signal [of "new_map :: (string, int) ReactiveUnorderedMap" "''a''" 0]
    subscript_no_signal
      [of "\<lparr>signal_emitter = \<lparr>emitted = []\<rparr>, map_m = [(''a'', 7 :: int)]\<rparr>" "''a''" 0]
  by (simp add: new_map_def subscript_def um_subscript_def um_end_def Let_def contains_def)

subsection \<open>Claim C10: \<open>erase\<close> by iterator\<close>

text \<open>
  C10. For a dereferenceable position of a store, \<open>erase(pos)\<close> removes that entry
  and no other, returns the iterator of the element that followed it (or \<open>end()\<close>
  after the last one) and emits no signal, while \<open>erase\<close> by the key of that entry,
  given as a key object of the caller's, returns 1, leaves the same content and emits
  \<open>Erased\<close>.
\<close>

theorem erase_pos_no_signal:
  "invar s \<and> pos < size_r s \<longrightarrow>
     (\<exists>s' it. erase_pos s pos = Some (s', it)
        \<and> \<not> contains s' (fst (map_m s ! pos))
        \<and> (\<forall>k'. k' \<noteq> fst (map_m s ! pos) \<longrightarrow> lookup s' k' = lookup s k')
        \<and> Suc (size_r s') = size_r s
        \<and> (if Suc pos < size_r s then it \<noteq> end_r s' \<and> map_m s' ! it = map_m s ! Suc pos
            else it = end_r s')
        \<and> signal_emitter s' = signal_emitter s
        \<and> emitted_signals s' = emitted_signals s
        \<and> (\<exists>s''. erase s (Outside (fst (map_m s ! pos))) = Inr (s'', 1)
              \<and> map_m s'' = map_m s'
              \<and> emitted_signals s''
                  = emitted_signals s @ [Erased (fst (map_m s ! pos)) (snd (map_m s ! pos))]))"
proof
  let ?m = "map_m s"
  let ?k = "fst (?m ! pos)"
  define m' where "m' = take pos ?m @ drop (Suc pos) ?m"
  assume "invar s \<and> pos < size_r s"
  then have d: "distinct (map fst ?m)" and p: "pos < length ?m"
    by (simp_all add: invar_def um_invar_def size_r_def um_size_def)
  have e: "erase_pos s pos = Some (s\<lparr>map_m := m'\<rparr>, pos)"
    using p by (simp add: erase_pos_def um_erase_pos_def m'_def)
  have mo: "map_of m' = (map_of ?m)(?k := None)"
    unfolding m'_def using d p by (rule map_of_remove_nth)
  have len: "Suc (length m') = length ?m"
    unfolding m'_def using p by (rule length_remove_nth)
  have nxt: "Suc pos < length ?m \<Longrightarrow> m' ! pos = ?m ! Suc pos"
    unfolding m'_def using p by (simp add: nth_append)
  have f: "um_find ?m ?k = pos" using d p by (rule um_find_nth)
  from p f have "um_find ?m ?k \<noteq> length ?m" by simp
  then have ek: "erase s (Outside ?k)
                  = Inr (emit_signal (s\<lparr>map_m := m'\<rparr>) (Erased ?k (snd (?m ! pos))), 1)"
    unfolding m'_def using erase_outside_present [of s ?k] f by simp
  have a: "\<not> contains (s\<lparr>map_m := m'\<rparr>) ?k"
    by (simp add: contains_map_of mo)
  have b: "\<forall>k'. k' \<noteq> ?k \<longrightarrow> lookup (s\<lparr>map_m := m'\<rparr>) k' = lookup s k'"
    by (simp add: lookup_map_of mo)
  have c: "Suc (size_r (s\<lparr>map_m := m'\<rparr>)) = size_r s"
    using len by (simp add: size_r_def um_size_def)
  have n: "if Suc pos < size_r s
           then pos \<noteq> end_r (s\<lparr>map_m := m'\<rparr>) \<and> map_m (s\<lparr>map_m := m'\<rparr>) ! pos = ?m ! Suc pos
           else pos = end_r (s\<lparr>map_m := m'\<rparr>)"
    using len nxt p by (auto simp: size_r_def um_size_def end_r_def um_end_def)
  have g: "\<exists>s''. erase s (Outside ?k) = Inr (s'', 1) \<and> map_m s'' = m'
              \<and> emitted_signals s'' = emitted_signals s @ [Erased ?k (snd (?m ! pos))]"
    unfolding ek by (simp add: emit_signal_def emit_def emitted_signals_def)
  show "\<exists>s' it. erase_pos s pos = Some (s', it)
        \<and> \<not> contains s' (fst (map_m s ! pos))
        \<and> (\<forall>k'. k' \<noteq> fst (map_m s ! pos) \<longrightarrow> lookup s' k' = lookup s k')
        \<and> Suc (size_r s') = size_r s
        \<and> (if Suc pos < size_r s then it \<noteq> end_r s' \<and> map_m s' ! it = map_m s ! Suc pos
            else it = end_r s')
        \<and> signal_emitter s' = signal_emitter s
        \<and> emitted_signals s' = emitted_signals s
        \<and> (\<exists>s''. erase s (Outside (fst (map_m s ! pos))) = Inr (s'', 1)
              \<and> map_m s'' = map_m s'
              \<and> emitted_signals s''
                  = emitted_signals s @ [Erased (fst (map_m s ! pos)) (snd (map_m s ! pos))])"
    using e a b c n g by (simp add: emitted_signals_def)
qed

text \<open>Erasing the second of three entries by position, and by its key.\<close>

theorem erase_pos_no_signal_witness:
  "invar \<lparr>signal_emitter = \<lparr>emitted = []\<rparr>, map_m = [(1 :: nat, 10 :: int), (2, 20), (3, 30)]\<rparr>
   \<and> (1 :: nat) < size_r \<lparr>signal_emitter = \<lparr>emitted = []\<rparr>,
         map_m = [(1 :: nat, 10 :: int), (2, 20), (3, 30)]\<rparr>
   \<and> erase_pos \<lparr>signal_emitter = \<lparr>emitted = []\<rparr>,
         map_m = [(1 :: nat, 10 :: int), (2, 20), (3, 30)]\<rparr> 1
      = Some (\<lparr>signal_emitter = \<lparr>emitted = []\<rparr>, map_m = [(1, 10), (3, 30)]\<rparr>, 1)
   \<and> erase \<lparr>signal_emitter = \<lparr>emitted = []\<rparr>,
         map_m = [(1 :: nat, 10 :: int), (2, 20), (3, 30)]\<rparr> (Outside 2)
      = Inr (\<lparr>signal_emitter = \<lparr>emitted = [(Erased 2 20, [(1, 10), (3, 30)])]\<rparr>,
          map_m = [(1, 10), (3, 30)]\<rparr>, 1)"
  using erase_pos_no_signal
      [of "\<lparr>signal_emitter = \<lparr>emitted = []\<rparr>, map_m = [(1 :: nat, 10 :: int), (2, 20), (3, 30)]\<rparr>" 1]
  by (simp add: erase_pos_def um_erase_pos_def invar_def um_invar_def size_r_def um_size_def
      erase_def um_erase_key_def um_end_def Let_def emit_signal_def emit_def)

end
